theory Spec2Isabelle
  imports Main "HOL-Library.Sublist"
begin

section \<open>The distributed lock coordinator (RedisDistlockLocker)\<close>

text \<open>
  The coordinator \<^verbatim>\<open>RedisDistlockLocker\<close> (module type \<^verbatim>\<open>redis-distlock\<close>) keeps a
  table of the locks it holds and talks to two collaborators that are not part of it: a
  connection pool (\<^verbatim>\<open>pool.acquire\<close>, \<^verbatim>\<open>pool.release\<close>) and the Redlock library
  (\<^verbatim>\<open>redlock.lock\<close>, \<^verbatim>\<open>redlock.unlock\<close>, \<^verbatim>\<open>lock.extend\<close>). The collaborators are
  parameters of the model: a record of functions over a world they own. Every
  general statement below holds for all such functions.

  JavaScript objects are references. A lock object is an address; what it holds lives
  in the world, where the library may change it. The table maps a resource identifier
  to an address.

  The source is written with callbacks. Each collaborator is taken to invoke its
  callback exactly once and not to throw, so a call is a function from the state before
  to what the callback receives and the state after. A node-style callback receives
  either an error or a result: a sum. The trace records every call the coordinator
  makes, in order, and every invocation of the caller's callback. One call of
  \<^verbatim>\<open>lock\<close> or \<^verbatim>\<open>unlock\<close> runs to its end before the next starts: interleavings of
  several pending calls are outside the model.
\<close>

subsection \<open>Data\<close>

type_synonym client = nat
type_synonym lockref = nat

datatype error = PoolError string | LockError string

text \<open>An entry of \<^verbatim>\<open>redlock.servers\<close>: the constructor passes the placeholder \<^verbatim>\<open>{}\<close>.\<close>

datatype server = Placeholder | Conn client

text \<open>
  Modelled from the spec: the fields of a lease (section 3). Lock objects are made by the
  Redlock library, which is not part of the sources; the coordinator reads none of
  their fields.
\<close>

record lease =
  lease_resource :: string
  lease_value :: nat
  expiresAt :: nat

record 'x world =
  objects :: "lockref \<rightharpoonup> lease"
  now :: nat
  nodes :: 'x

datatype event =
    PoolAcquire nat "error + client"
  | PoolRelease nat client
  | RedlockLock "server list" string nat
  | LockExtend "server list" lockref nat
  | RedlockUnlock "server list" lockref
  | Callback "error option" "lockref option"

record 'x collaborators =
  pool_acquire :: "nat \<Rightarrow> 'x world \<Rightarrow> (error + client) \<times> 'x world"
  pool_release :: "nat \<Rightarrow> client \<Rightarrow> 'x world \<Rightarrow> 'x world"
  redlock_lock :: "server list \<Rightarrow> string \<Rightarrow> nat \<Rightarrow> 'x world \<Rightarrow> (error + lockref) \<times> 'x world"
  redlock_unlock :: "server list \<Rightarrow> lockref \<Rightarrow> 'x world \<Rightarrow> error option \<times> 'x world"
  lock_extend :: "server list \<Rightarrow> lockref \<Rightarrow> nat \<Rightarrow> 'x world \<Rightarrow> (error + lockref) \<times> 'x world"

text \<open>
  The instance: \<^verbatim>\<open>this.redlock.servers\<close>, \<^verbatim>\<open>this._locks\<close>, and around it the world
  and the trace.
\<close>

record 'x state =
  servers :: "server list"
  locks :: "string \<rightharpoonup> lockref"
  world :: "'x world"
  trace :: "event list"

subsection \<open>Constants and the constructor\<close>

definition REDIS_DISTLOCK_DB :: nat where
  "REDIS_DISTLOCK_DB = 5"

definition REDIS_DISTLOCK_PREFIX :: string where
  "REDIS_DISTLOCK_PREFIX = ''batch:locks:''"

definition RedisDistlockLocker :: "'x world \<Rightarrow> 'x state" where
  "RedisDistlockLocker w =
     \<lparr>servers = [Placeholder], locks = Map.empty, world = w, trace = []\<rparr>"

definition resourceId :: "string \<Rightarrow> string" where
  "resourceId host = REDIS_DISTLOCK_PREFIX @ host"

subsection \<open>The lock table\<close>

text \<open>\<^verbatim>\<open>_getLock\<close> and \<^verbatim>\<open>_setLock\<close>. No other code reads or writes the table.\<close>

definition getLock :: "'x state \<Rightarrow> string \<Rightarrow> lockref option" where
  "getLock s resource =
     (if resource \<in> dom (locks s) then locks s resource else None)"

definition setLock :: "string \<Rightarrow> lockref \<Rightarrow> 'x state \<Rightarrow> 'x state" where
  "setLock resource l s = s\<lparr>locks := (locks s)(resource \<mapsto> l)\<rparr>"

subsection \<open>Calls to the collaborators\<close>

definition emit :: "event \<Rightarrow> 'x state \<Rightarrow> 'x state" where
  "emit e s = s\<lparr>trace := trace s @ [e]\<rparr>"

text \<open>\<^verbatim>\<open>this.pool.acquire(REDIS_DISTLOCK.DB, function (err, client) ...)\<close>\<close>

definition poolAcquire :: "'x collaborators \<Rightarrow> 'x state \<Rightarrow> (error + client) \<times> 'x state" where
  "poolAcquire io s =
     (case pool_acquire io REDIS_DISTLOCK_DB (world s) of
        (r, w) \<Rightarrow> (r, emit (PoolAcquire REDIS_DISTLOCK_DB r) (s\<lparr>world := w\<rparr>)))"

text \<open>\<^verbatim>\<open>self.pool.release(REDIS_DISTLOCK.DB, client)\<close>\<close>

definition poolRelease :: "'x collaborators \<Rightarrow> client \<Rightarrow> 'x state \<Rightarrow> 'x state" where
  "poolRelease io c s =
     emit (PoolRelease REDIS_DISTLOCK_DB c)
       (s\<lparr>world := pool_release io REDIS_DISTLOCK_DB c (world s)\<rparr>)"

text \<open>\<^verbatim>\<open>lock.extend(ttl, ...)\<close>: the library runs over the servers set at that moment.\<close>

definition lockExtend :: "'x collaborators \<Rightarrow> lockref \<Rightarrow> nat \<Rightarrow> 'x state \<Rightarrow> (error + lockref) \<times> 'x state" where
  "lockExtend io l ttl s =
     (case lock_extend io (servers s) l ttl (world s) of
        (r, w) \<Rightarrow> (r, emit (LockExtend (servers s) l ttl) (s\<lparr>world := w\<rparr>)))"

text \<open>\<^verbatim>\<open>self.redlock.lock(resource, ttl, ...)\<close>\<close>

definition redlockLock :: "'x collaborators \<Rightarrow> string \<Rightarrow> nat \<Rightarrow> 'x state \<Rightarrow> (error + lockref) \<times> 'x state" where
  "redlockLock io resource ttl s =
     (case redlock_lock io (servers s) resource ttl (world s) of
        (r, w) \<Rightarrow> (r, emit (RedlockLock (servers s) resource ttl) (s\<lparr>world := w\<rparr>)))"

text \<open>\<^verbatim>\<open>self.redlock.unlock(lock, ...)\<close>\<close>

definition redlockUnlock :: "'x collaborators \<Rightarrow> lockref \<Rightarrow> 'x state \<Rightarrow> error option \<times> 'x state" where
  "redlockUnlock io l s =
     (case redlock_unlock io (servers s) l (world s) of
        (r, w) \<Rightarrow> (r, emit (RedlockUnlock (servers s) l) (s\<lparr>world := w\<rparr>)))"

subsection \<open>The coordinator\<close>

text \<open>\<^verbatim>\<open>_tryExtend\<close>: what its callback receives, and the state then.\<close>

definition tryExtend :: "'x collaborators \<Rightarrow> lockref \<Rightarrow> nat \<Rightarrow> 'x state \<Rightarrow> (error + lockref) \<times> 'x state" where
  "tryExtend io l ttl s =
     (case poolAcquire io s of
        (Inl err, s1) \<Rightarrow> (Inl err, s1)
      | (Inr c, s1) \<Rightarrow>
          (case lockExtend io l ttl (s1\<lparr>servers := [Conn c]\<rparr>) of
             (r, s2) \<Rightarrow> (r, poolRelease io c s2)))"

text \<open>\<^verbatim>\<open>_tryAcquire\<close>\<close>

definition tryAcquire :: "'x collaborators \<Rightarrow> string \<Rightarrow> nat \<Rightarrow> 'x state \<Rightarrow> (error + lockref) \<times> 'x state" where
  "tryAcquire io resource ttl s =
     (case poolAcquire io s of
        (Inl err, s1) \<Rightarrow> (Inl err, s1)
      | (Inr c, s1) \<Rightarrow>
          (case redlockLock io resource ttl (s1\<lparr>servers := [Conn c]\<rparr>) of
             (r, s2) \<Rightarrow> (r, poolRelease io c s2)))"

text \<open>The closure \<^verbatim>\<open>acquireCallback\<close> of \<^verbatim>\<open>lock\<close>, applied to what \<^verbatim>\<open>_tryAcquire\<close> hands it.\<close>

definition acquireCallback :: "string \<Rightarrow> (error + lockref) \<times> 'x state \<Rightarrow> (error + lockref) \<times> 'x state" where
  "acquireCallback resource r =
     (case r of
        (Inl err, s) \<Rightarrow> (Inl err, emit (Callback (Some err) None) s)
      | (Inr l, s) \<Rightarrow> (Inr l, emit (Callback None (Some l)) (setLock resource l s)))"

text \<open>\<^verbatim>\<open>lock(host, ttl, callback)\<close>: what the callback receives, and the state then.\<close>

definition lock :: "'x collaborators \<Rightarrow> string \<Rightarrow> nat \<Rightarrow> 'x state \<Rightarrow> (error + lockref) \<times> 'x state" where
  "lock io host ttl s =
     (case getLock s (resourceId host) of
        Some l \<Rightarrow>
          (case tryExtend io l ttl s of
             (Inl err, s1) \<Rightarrow>
               acquireCallback (resourceId host) (tryAcquire io (resourceId host) ttl s1)
           | (Inr l', s1) \<Rightarrow> (Inr l', emit (Callback None (Some l')) s1))
      | None \<Rightarrow>
          acquireCallback (resourceId host) (tryAcquire io (resourceId host) ttl s))"

text \<open>
  \<^verbatim>\<open>unlock(host, callback)\<close>. The result is \<open>None\<close> when the callback is never
  invoked (there is no \<^verbatim>\<open>else\<close> branch), and \<open>Some err\<close> when it is invoked with
  \<open>err\<close>.
\<close>

definition unlock :: "'x collaborators \<Rightarrow> string \<Rightarrow> 'x state \<Rightarrow> error option option \<times> 'x state" where
  "unlock io host s =
     (case getLock s (resourceId host) of
        Some l \<Rightarrow>
          (case poolAcquire io s of
             (Inl err, s1) \<Rightarrow> (Some (Some err), emit (Callback (Some err) None) s1)
           | (Inr c, s1) \<Rightarrow>
               (case redlockUnlock io l (s1\<lparr>servers := [Conn c]\<rparr>) of
                  (err, s2) \<Rightarrow> (Some err, emit (Callback err None) (poolRelease io c s2))))
      | None \<Rightarrow> (None, s))"

section \<open>Observations\<close>

text \<open>The events a call appended to the trace: those of \<open>s'\<close> after those of \<open>s\<close>.\<close>

definition issued :: "'x state \<Rightarrow> 'x state \<Rightarrow> event list" where
  "issued s s' = drop (length (trace s)) (trace s')"

text \<open>The server set a store operation ran over; \<open>None\<close> for the other events.\<close>

fun op_servers :: "event \<Rightarrow> server list option" where
  "op_servers (RedlockLock sv resource ttl) = Some sv"
| "op_servers (LockExtend sv l ttl) = Some sv"
| "op_servers (RedlockUnlock sv l) = Some sv"
| "op_servers (PoolAcquire db r) = None"
| "op_servers (PoolRelease db c) = None"
| "op_servers (Callback err l) = None"

text \<open>
  Pool discipline of a trace, given the connections held at its start: a release returns
  a connection that is held, and takes it out of the held ones, so none is released
  twice; the caller's callback is invoked with nothing held; nothing is held at the end.
\<close>

fun pool_discipline :: "client list \<Rightarrow> event list \<Rightarrow> bool" where
  "pool_discipline held [] = (held = [])"
| "pool_discipline held (PoolAcquire db (Inr c) # es) = pool_discipline (c # held) es"
| "pool_discipline held (PoolAcquire db (Inl e) # es) = pool_discipline held es"
| "pool_discipline held (PoolRelease db c # es) =
     (c \<in> set held \<and> pool_discipline (remove1 c held) es)"
| "pool_discipline held (Callback err l # es) = (held = [] \<and> pool_discipline held es)"
| "pool_discipline held (RedlockLock sv resource ttl # es) = pool_discipline held es"
| "pool_discipline held (LockExtend sv l ttl # es) = pool_discipline held es"
| "pool_discipline held (RedlockUnlock sv l # es) = pool_discipline held es"

text \<open>The connections a trace obtained from the pool, and those it gave back.\<close>

fun acquired :: "event list \<Rightarrow> nat" where
  "acquired [] = 0"
| "acquired (PoolAcquire db (Inr c) # es) = Suc (acquired es)"
| "acquired (e # es) = acquired es"

fun released :: "event list \<Rightarrow> nat" where
  "released [] = 0"
| "released (PoolRelease db c # es) = Suc (released es)"
| "released (e # es) = released es"

text \<open>
  One wrapped store interaction: the pool refuses, or it grants \<open>c\<close>, one store
  operation runs over exactly \<open>[Conn c]\<close>, and \<open>c\<close> goes back.
\<close>

fun segment :: "event list \<Rightarrow> bool" where
  "segment [PoolAcquire db (Inl e)] = True"
| "segment [PoolAcquire db (Inr c), ev, PoolRelease db' c'] =
     (c' = c \<and> op_servers ev = Some [Conn c])"
| "segment es = False"

text \<open>
  Every store operation of a trace runs over the one connection obtained from the pool
  just before it and not yet given back.
\<close>

fun single_node :: "client option \<Rightarrow> server list \<Rightarrow> bool" where
  "single_node (Some c) sv = (sv = [Conn c])"
| "single_node None sv = False"

fun own_connection :: "client option \<Rightarrow> event list \<Rightarrow> bool" where
  "own_connection cur [] = True"
| "own_connection cur (PoolAcquire db (Inr c) # es) = own_connection (Some c) es"
| "own_connection cur (PoolAcquire db (Inl e) # es) = own_connection None es"
| "own_connection cur (PoolRelease db c # es) = own_connection None es"
| "own_connection cur (Callback err l # es) = own_connection cur es"
| "own_connection cur (RedlockLock sv resource ttl # es) =
     (single_node cur sv \<and> own_connection cur es)"
| "own_connection cur (LockExtend sv l ttl # es) =
     (single_node cur sv \<and> own_connection cur es)"
| "own_connection cur (RedlockUnlock sv l # es) =
     (single_node cur sv \<and> own_connection cur es)"

text \<open>The number of store nodes each store operation of a trace ran over.\<close>

fun node_counts :: "event list \<Rightarrow> nat list" where
  "node_counts [] = []"
| "node_counts (e # es) =
     (case op_servers e of
        Some sv \<Rightarrow> length sv # node_counts es
      | None \<Rightarrow> node_counts es)"

text \<open>
  Modelled from the spec: the majority threshold of the quorum primitive over \<open>n\<close>
  nodes, \<open>\<lfloor>n/2\<rfloor> + 1\<close> (section 4.2). The primitive is the Redlock library, which
  is not part of the sources.
\<close>

definition quorum :: "nat \<Rightarrow> nat" where
  "quorum n = n div 2 + 1"

definition one_node :: "nat \<Rightarrow> bool" where
  "one_node n \<longleftrightarrow> n = 1 \<and> quorum n = 1"

text \<open>
  Modelled from the spec: a lease is valid only while \<open>now < expiresAt\<close> (section 3).
  No function of the sources evaluates this.
\<close>

definition expired :: "'x world \<Rightarrow> lockref \<Rightarrow> bool" where
  "expired w l = (case objects w l of Some le \<Rightarrow> \<not> now w < expiresAt le | None \<Rightarrow> False)"




section \<open>A one-node store behind a pool\<close>

text \<open>
  Modelled from the spec: collaborators for the concrete instances below, after sections
  4.1 and 4.2 with a single store node. The pool hands out its idle connections in
  order. Acquire sets the resource on the node if it holds no live entry for it; extend
  refreshes the lock object in place if the node still holds its value; release deletes
  the entry where the value matches, and fails only when the node is unreachable. No
  general statement depends on these definitions.
\<close>

record node =
  idle :: "client list"
  up :: bool
  store :: "string \<rightharpoonup> lease"
  next_ref :: nat

definition live_entry :: "node world \<Rightarrow> string \<Rightarrow> lease option" where
  "live_entry w resource =
     (case store (nodes w) resource of
        Some e \<Rightarrow> if now w < expiresAt e then Some e else None
      | None \<Rightarrow> None)"

definition holds :: "node world \<Rightarrow> lease \<Rightarrow> bool" where
  "holds w le =
     (up (nodes w) \<and>
      (case live_entry w (lease_resource le) of
         Some e \<Rightarrow> lease_value e = lease_value le
       | None \<Rightarrow> False))"

definition node_pool_acquire :: "nat \<Rightarrow> node world \<Rightarrow> (error + client) \<times> node world" where
  "node_pool_acquire db w =
     (case idle (nodes w) of
        [] \<Rightarrow> (Inl (PoolError ''exhausted''), w)
      | c # cs \<Rightarrow> (Inr c, w\<lparr>nodes := (nodes w)\<lparr>idle := cs\<rparr>\<rparr>))"

definition node_pool_release :: "nat \<Rightarrow> client \<Rightarrow> node world \<Rightarrow> node world" where
  "node_pool_release db c w = w\<lparr>nodes := (nodes w)\<lparr>idle := idle (nodes w) @ [c]\<rparr>\<rparr>"

definition node_lock :: "server list \<Rightarrow> string \<Rightarrow> nat \<Rightarrow> node world \<Rightarrow> (error + lockref) \<times> node world" where
  "node_lock sv resource ttl w =
     (if up (nodes w) \<and> live_entry w resource = None then
        (let a = next_ref (nodes w);
             le = \<lparr>lease_resource = resource, lease_value = a, expiresAt = now w + ttl\<rparr>
         in (Inr a,
             w\<lparr>objects := (objects w)(a \<mapsto> le),
               nodes := (nodes w)\<lparr>store := (store (nodes w))(resource \<mapsto> le),
                                   next_ref := Suc a\<rparr>\<rparr>))
      else (Inl (LockError ''not acquired''), w))"

definition node_extend :: "server list \<Rightarrow> lockref \<Rightarrow> nat \<Rightarrow> node world \<Rightarrow> (error + lockref) \<times> node world" where
  "node_extend sv l ttl w =
     (case objects w l of
        None \<Rightarrow> (Inl (LockError ''no such lock''), w)
      | Some le \<Rightarrow>
          if expiresAt le < now w \<or> \<not> holds w le then (Inl (LockError ''not extended''), w)
          else
            (let le' = le\<lparr>expiresAt := now w + ttl\<rparr>
             in (Inr l,
                 w\<lparr>objects := (objects w)(l \<mapsto> le'),
                   nodes := (nodes w)\<lparr>store := (store (nodes w))(lease_resource le \<mapsto> le')\<rparr>\<rparr>)))"

definition node_unlock :: "server list \<Rightarrow> lockref \<Rightarrow> node world \<Rightarrow> error option \<times> node world" where
  "node_unlock sv l w =
     (case objects w l of
        None \<Rightarrow> (Some (LockError ''no such lock''), w)
      | Some le \<Rightarrow>
          if up (nodes w) then
            (None,
             if holds w le
             then w\<lparr>nodes := (nodes w)\<lparr>store := (store (nodes w))(lease_resource le := None)\<rparr>\<rparr>
             else w)
          else (Some (LockError ''not released''), w))"

definition one_node_store :: "node collaborators" where
  "one_node_store =
     \<lparr>pool_acquire = node_pool_acquire,
      pool_release = node_pool_release,
      redlock_lock = node_lock,
      redlock_unlock = node_unlock,
      lock_extend = node_extend\<rparr>"

text \<open>
  The scenarios: a new coordinator over an empty node with two idle connections; the
  state after it locked \<^verbatim>\<open>hostA\<close> for 10; that state after an unlock; and what happens
  to the world between two calls (time passes, the node goes down, the pool runs dry).
\<close>

definition fresh_world :: "node world" where
  "fresh_world =
     \<lparr>objects = Map.empty, now = 0,
      nodes = \<lparr>idle = [1, 2], up = True, store = Map.empty, next_ref = 0\<rparr>\<rparr>"

definition hostA_lease :: "nat \<Rightarrow> nat \<Rightarrow> lease" where
  "hostA_lease v t = \<lparr>lease_resource = ''batch:locks:hostA'', lease_value = v, expiresAt = t\<rparr>"

definition held_state :: "node state" where
  "held_state = snd (lock one_node_store ''hostA'' 10 (RedisDistlockLocker fresh_world))"

definition released_state :: "node state" where
  "released_state = snd (unlock one_node_store ''hostA'' held_state)"

definition at_time :: "nat \<Rightarrow> 'x state \<Rightarrow> 'x state" where
  "at_time t s = s\<lparr>world := (world s)\<lparr>now := t\<rparr>\<rparr>"

definition node_down :: "node state \<Rightarrow> node state" where
  "node_down s = s\<lparr>world := (world s)\<lparr>nodes := (nodes (world s))\<lparr>up := False\<rparr>\<rparr>\<rparr>"

definition pool_exhausted :: "node state \<Rightarrow> node state" where
  "pool_exhausted s = s\<lparr>world := (world s)\<lparr>nodes := (nodes (world s))\<lparr>idle := []\<rparr>\<rparr>\<rparr>"

section \<open>What each path does\<close>

text \<open>
  The lookup is the table itself. Each function of the coordinator is unfolded once,
  for each answer of the collaborators, into the result and the state it leaves; the
  claims are proved from these equations.
\<close>

lemma getLock_locks: "getLock s resource = locks s resource"
  by (cases "locks s resource") (auto simp: getLock_def)

lemma tryExtend_pool_failed:
  assumes "pool_acquire io REDIS_DISTLOCK_DB (world s) = (Inl e, w1)"
  shows "tryExtend io l ttl s =
           (Inl e, s\<lparr>world := w1, trace := trace s @ [PoolAcquire REDIS_DISTLOCK_DB (Inl e)]\<rparr>)"
  using assms by (simp add: tryExtend_def poolAcquire_def emit_def)

lemma tryExtend_pool_granted:
  assumes "pool_acquire io REDIS_DISTLOCK_DB (world s) = (Inr c, w1)"
      and "lock_extend io [Conn c] l ttl w1 = (r, w2)"
  shows "tryExtend io l ttl s =
           (r, s\<lparr>servers := [Conn c],
                 world := pool_release io REDIS_DISTLOCK_DB c w2,
                 trace := trace s @ [PoolAcquire REDIS_DISTLOCK_DB (Inr c),
                                     LockExtend [Conn c] l ttl,
                                     PoolRelease REDIS_DISTLOCK_DB c]\<rparr>)"
  using assms by (simp add: tryExtend_def poolAcquire_def lockExtend_def poolRelease_def emit_def)

lemma tryAcquire_pool_failed:
  assumes "pool_acquire io REDIS_DISTLOCK_DB (world s) = (Inl e, w1)"
  shows "tryAcquire io resource ttl s =
           (Inl e, s\<lparr>world := w1, trace := trace s @ [PoolAcquire REDIS_DISTLOCK_DB (Inl e)]\<rparr>)"
  using assms by (simp add: tryAcquire_def poolAcquire_def emit_def)

lemma tryAcquire_pool_granted:
  assumes "pool_acquire io REDIS_DISTLOCK_DB (world s) = (Inr c, w1)"
      and "redlock_lock io [Conn c] resource ttl w1 = (r, w2)"
  shows "tryAcquire io resource ttl s =
           (r, s\<lparr>servers := [Conn c],
                 world := pool_release io REDIS_DISTLOCK_DB c w2,
                 trace := trace s @ [PoolAcquire REDIS_DISTLOCK_DB (Inr c),
                                     RedlockLock [Conn c] resource ttl,
                                     PoolRelease REDIS_DISTLOCK_DB c]\<rparr>)"
  using assms by (simp add: tryAcquire_def poolAcquire_def redlockLock_def poolRelease_def emit_def)

lemma unlock_absent:
  assumes "getLock s (resourceId host) = None"
  shows "unlock io host s = (None, s)"
  using assms by (simp add: unlock_def)

lemma unlock_pool_failed:
  assumes "getLock s (resourceId host) = Some l"
      and "pool_acquire io REDIS_DISTLOCK_DB (world s) = (Inl e, w1)"
  shows "unlock io host s =
           (Some (Some e),
            s\<lparr>world := w1,
              trace := trace s @ [PoolAcquire REDIS_DISTLOCK_DB (Inl e), Callback (Some e) None]\<rparr>)"
  using assms by (simp add: unlock_def poolAcquire_def emit_def)

lemma unlock_pool_granted:
  assumes "getLock s (resourceId host) = Some l"
      and "pool_acquire io REDIS_DISTLOCK_DB (world s) = (Inr c, w1)"
      and "redlock_unlock io [Conn c] l w1 = (err, w2)"
  shows "unlock io host s =
           (Some err,
            s\<lparr>servers := [Conn c],
              world := pool_release io REDIS_DISTLOCK_DB c w2,
              trace := trace s @ [PoolAcquire REDIS_DISTLOCK_DB (Inr c),
                                  RedlockUnlock [Conn c] l,
                                  PoolRelease REDIS_DISTLOCK_DB c,
                                  Callback err None]\<rparr>)"
  using assms by (simp add: unlock_def poolAcquire_def redlockUnlock_def poolRelease_def emit_def)

lemma tryExtend_locks: "locks (snd (tryExtend io l ttl s)) = locks s"
  by (simp add: tryExtend_def poolAcquire_def lockExtend_def poolRelease_def emit_def
      split: prod.splits sum.splits)

lemma tryAcquire_locks: "locks (snd (tryAcquire io resource ttl s)) = locks s"
  by (simp add: tryAcquire_def poolAcquire_def redlockLock_def poolRelease_def emit_def
      split: prod.splits sum.splits)

lemma unlock_locks: "locks (snd (unlock io host s)) = locks s"
  by (simp add: unlock_def poolAcquire_def redlockUnlock_def poolRelease_def emit_def
      split: prod.splits sum.splits option.splits)

lemma issuedI: "trace s' = trace s @ es \<Longrightarrow> issued s s' = es"
  by (simp add: issued_def)

lemma segment_cases:
  "segment es \<Longrightarrow>
     (\<exists>db e. es = [PoolAcquire db (Inl e)])
   \<or> (\<exists>db db' c ev. es = [PoolAcquire db (Inr c), ev, PoolRelease db' c] \<and> op_servers ev = Some [Conn c])"
  by (induction es rule: segment.induct) auto

lemma acquired_append: "acquired (es @ fs) = acquired es + acquired fs"
  by (induction es rule: acquired.induct) auto

lemma released_append: "released (es @ fs) = released es + released fs"
  by (induction es rule: released.induct) auto

lemma op_event_discipline:
  "op_servers ev = Some sv \<Longrightarrow> pool_discipline held (ev # es) = pool_discipline held es"
  by (cases ev) auto

lemma op_event_counts:
  "op_servers ev = Some sv \<Longrightarrow> acquired (ev # es) = acquired es \<and> released (ev # es) = released es"
  by (cases ev) auto

lemma segment_discipline:
  "segment es \<Longrightarrow> pool_discipline held (es @ fs) = pool_discipline held fs"
  by (drule segment_cases) (auto simp: op_event_discipline)

lemma segment_counts:
  "segment es \<Longrightarrow> acquired es = released es"
  by (drule segment_cases) (auto simp: op_event_counts)

lemma op_event_own_connection:
  "op_servers ev = Some [Conn c] \<Longrightarrow>
     own_connection (Some c) (ev # es) = own_connection (Some c) es"
  by (cases ev) auto

lemma segment_own_connection:
  "segment es \<Longrightarrow> own_connection cur (es @ fs) = own_connection None fs"
  by (drule segment_cases) (auto simp: op_event_own_connection)

lemma segment_node_counts:
  "segment es \<Longrightarrow> list_all one_node (node_counts es)"
  by (drule segment_cases) (auto simp: one_node_def quorum_def)

lemma node_counts_append: "node_counts (es @ fs) = node_counts es @ node_counts fs"
  by (induction es) (auto split: option.splits)

lemma tryExtend_segment:
  "\<exists>es. trace (snd (tryExtend io l ttl s)) = trace s @ es \<and> segment es"
proof (cases "pool_acquire io REDIS_DISTLOCK_DB (world s)")
  case (Pair r w1)
  show ?thesis
  proof (cases r)
    case (Inl e)
    with Pair show ?thesis by (simp add: tryExtend_pool_failed)
  next
    case (Inr c)
    obtain r2 w2 where "lock_extend io [Conn c] l ttl w1 = (r2, w2)" by force
    with Pair Inr show ?thesis by (simp add: tryExtend_pool_granted)
  qed
qed

lemma tryAcquire_segment:
  "\<exists>es. trace (snd (tryAcquire io resource ttl s)) = trace s @ es \<and> segment es"
proof (cases "pool_acquire io REDIS_DISTLOCK_DB (world s)")
  case (Pair r w1)
  show ?thesis
  proof (cases r)
    case (Inl e)
    with Pair show ?thesis by (simp add: tryAcquire_pool_failed)
  next
    case (Inr c)
    obtain r2 w2 where "redlock_lock io [Conn c] resource ttl w1 = (r2, w2)" by force
    with Pair Inr show ?thesis by (simp add: tryAcquire_pool_granted)
  qed
qed

lemma acquireCallback_trace:
  "\<exists>err l'. trace (snd (acquireCallback resource (r, s))) = trace s @ [Callback err l']"
  by (cases r) (simp_all add: acquireCallback_def emit_def setLock_def)

lemma lock_issued_shape:
  "\<exists>es err l'. trace (snd (lock io host ttl s)) = trace s @ es @ [Callback err l']
      \<and> (segment es \<or> (\<exists>es1 es2. es = es1 @ es2 \<and> segment es1 \<and> segment es2))"
proof -
  let ?rid = "resourceId host"
  have fresh: "\<exists>es err l'. trace (snd (acquireCallback ?rid (tryAcquire io ?rid ttl s0)))
                  = trace s0 @ es @ [Callback err l'] \<and> segment es" for s0
  proof -
    obtain r s1 where ta: "tryAcquire io ?rid ttl s0 = (r, s1)" by force
    from tryAcquire_segment [of io ?rid ttl s0] ta
    obtain es where "trace s1 = trace s0 @ es" "segment es" by auto
    moreover from acquireCallback_trace [of ?rid r s1]
    obtain err l' where "trace (snd (acquireCallback ?rid (r, s1))) = trace s1 @ [Callback err l']"
      by blast
    ultimately show ?thesis using ta by auto
  qed
  show ?thesis
  proof (cases "getLock s ?rid")
    case None
    with fresh [of s] show ?thesis by (auto simp: lock_def)
  next
    case (Some l)
    obtain r s1 where te: "tryExtend io l ttl s = (r, s1)" by force
    from tryExtend_segment [of io l ttl s] te
    obtain es1 where es1: "trace s1 = trace s @ es1" "segment es1" by auto
    show ?thesis
    proof (cases r)
      case (Inr l')
      with Some te es1 show ?thesis by (auto simp: lock_def emit_def)
    next
      case (Inl e)
      from fresh [of s1] obtain es2 err l' where
        "trace (snd (acquireCallback ?rid (tryAcquire io ?rid ttl s1))) = trace s1 @ es2 @ [Callback err l']"
        "segment es2" by blast
      with Some te Inl es1 show ?thesis by (auto simp: lock_def)
    qed
  qed
qed

lemma unlock_issued_shape:
  "issued s (snd (unlock io host s)) = []
   \<or> (\<exists>es err. issued s (snd (unlock io host s)) = es @ [Callback err None] \<and> segment es)"
proof (cases "getLock s (resourceId host)")
  case None
  then show ?thesis by (simp add: unlock_absent issued_def)
next
  case (Some l)
  obtain r w1 where pa: "pool_acquire io REDIS_DISTLOCK_DB (world s) = (r, w1)" by force
  show ?thesis
  proof (cases r)
    case (Inl e)
    with Some pa show ?thesis by (simp add: unlock_pool_failed issued_def)
  next
    case (Inr c)
    obtain err w2 where "redlock_unlock io [Conn c] l w1 = (err, w2)" by force
    with Some pa Inr show ?thesis by (simp add: unlock_pool_granted issued_def)
  qed
qed


lemma unlock_present:
  assumes "getLock s (resourceId host) = Some l"
  shows "case pool_acquire io REDIS_DISTLOCK_DB (world s) of
           (Inl e, w1) \<Rightarrow>
             fst (unlock io host s) = Some (Some e)
             \<and> issued s (snd (unlock io host s)) =
                 [PoolAcquire REDIS_DISTLOCK_DB (Inl e), Callback (Some e) None]
         | (Inr c, w1) \<Rightarrow>
             fst (unlock io host s) = Some (fst (redlock_unlock io [Conn c] l w1))
             \<and> issued s (snd (unlock io host s)) =
                 [PoolAcquire REDIS_DISTLOCK_DB (Inr c), RedlockUnlock [Conn c] l,
                  PoolRelease REDIS_DISTLOCK_DB c,
                  Callback (fst (redlock_unlock io [Conn c] l w1)) None]"
proof -
  obtain r w1 where pa: "pool_acquire io REDIS_DISTLOCK_DB (world s) = (r, w1)" by force
  show ?thesis
  proof (cases r)
    case (Inl e)
    with pa assms show ?thesis by (simp add: unlock_pool_failed issued_def)
  next
    case (Inr c)
    obtain err w2 where "redlock_unlock io [Conn c] l w1 = (err, w2)" by force
    with pa Inr assms show ?thesis by (simp add: unlock_pool_granted issued_def)
  qed
qed

lemma lock_extend_tail:
  "\<exists>es. trace (snd (acquireCallback resource (tryAcquire io resource ttl s))) = trace s @ es"
proof -
  obtain r s1 where ta: "tryAcquire io resource ttl s = (r, s1)" by force
  from tryAcquire_segment [of io resource ttl s] ta obtain es where "trace s1 = trace s @ es"
    by auto
  moreover from acquireCallback_trace [of resource r s1] obtain err l' where
    "trace (snd (acquireCallback resource (r, s1))) = trace s1 @ [Callback err l']" by blast
  ultimately show ?thesis using ta by simp
qed

lemma lock_keeps_or_sets:
  "locks (snd (lock io host ttl s)) = locks s
   \<or> (\<exists>l'. locks (snd (lock io host ttl s)) = (locks s)(resourceId host \<mapsto> l'))"
proof -
  let ?rid = "resourceId host"
  have fresh: "locks (snd (acquireCallback ?rid (tryAcquire io ?rid ttl s0))) = locks s0
     \<or> (\<exists>l'. locks (snd (acquireCallback ?rid (tryAcquire io ?rid ttl s0)))
               = (locks s0)(?rid \<mapsto> l'))" for s0
  proof -
    obtain r s1 where ta: "tryAcquire io ?rid ttl s0 = (r, s1)" by force
    from tryAcquire_locks [of io ?rid ttl s0] ta have "locks s1 = locks s0" by simp
    with ta show ?thesis
      by (cases r) (auto simp: acquireCallback_def emit_def setLock_def)
  qed
  show ?thesis
  proof (cases "getLock s ?rid")
    case None
    with fresh [of s] show ?thesis by (simp add: lock_def)
  next
    case (Some l)
    obtain r s1 where te: "tryExtend io l ttl s = (r, s1)" by force
    from tryExtend_locks [of io l ttl s] te have keep: "locks s1 = locks s" by simp
    show ?thesis
    proof (cases r)
      case (Inr l')
      with Some te keep show ?thesis by (simp add: lock_def emit_def)
    next
      case (Inl e)
      with Some te keep fresh [of s1] show ?thesis by (simp add: lock_def)
    qed
  qed
qed

section \<open>The scenarios, evaluated\<close>

lemmas model_defs =
  lock_def unlock_def tryExtend_def tryAcquire_def acquireCallback_def getLock_def setLock_def
  poolAcquire_def poolRelease_def lockExtend_def redlockLock_def redlockUnlock_def emit_def
  resourceId_def REDIS_DISTLOCK_PREFIX_def REDIS_DISTLOCK_DB_def RedisDistlockLocker_def

lemmas node_defs =
  one_node_store_def node_pool_acquire_def node_pool_release_def node_lock_def node_extend_def
  node_unlock_def live_entry_def holds_def fresh_world_def hostA_lease_def Let_def

lemmas double_defs = node_defs at_time_def node_down_def

lemma held_state_eq:
  "held_state =
     \<lparr>servers = [Conn 1],
      locks = [''batch:locks:hostA'' \<mapsto> 0],
      world = \<lparr>objects = [0 \<mapsto> hostA_lease 0 10], now = 0,
               nodes = \<lparr>idle = [2, 1], up = True,
                        store = [''batch:locks:hostA'' \<mapsto> hostA_lease 0 10],
                        next_ref = 1\<rparr>\<rparr>,
      trace = [PoolAcquire 5 (Inr 1), RedlockLock [Conn 1] ''batch:locks:hostA'' 10,
               PoolRelease 5 1, Callback None (Some 0)]\<rparr>"
  by (simp add: held_state_def model_defs node_defs)

lemmas scenario_defs = held_state_eq model_defs double_defs pool_exhausted_def

lemma released_state_eq:
  "released_state =
     \<lparr>servers = [Conn 2],
      locks = [''batch:locks:hostA'' \<mapsto> 0],
      world = \<lparr>objects = [0 \<mapsto> hostA_lease 0 10], now = 0,
               nodes = \<lparr>idle = [1, 2], up = True, store = Map.empty, next_ref = 1\<rparr>\<rparr>,
      trace = [PoolAcquire 5 (Inr 1), RedlockLock [Conn 1] ''batch:locks:hostA'' 10,
               PoolRelease 5 1, Callback None (Some 0),
               PoolAcquire 5 (Inr 2), RedlockUnlock [Conn 2] 0, PoolRelease 5 2,
               Callback None None]\<rparr>"
  by (simp add: released_state_def scenario_defs)

section \<open>Resource identifiers\<close>

text \<open>
  C9. The resource identifier of a key is the fixed prefix \<^verbatim>\<open>batch:locks:\<close> followed
  by the key. It is a function of the key, distinct keys have distinct identifiers, and
  every identifier starts with the prefix, so it differs from any key of the store that
  does not.
\<close>

theorem resourceId_prefixed_injective:
  "resourceId host = ''batch:locks:'' @ host
   \<and> (resourceId h1 = resourceId h2 \<longleftrightarrow> h1 = h2)
   \<and> prefix REDIS_DISTLOCK_PREFIX (resourceId host)"
  by (simp add: resourceId_def REDIS_DISTLOCK_PREFIX_def)

section \<open>lock\<close>








text \<open>
  C4, as the code has it. When the extend attempt fails and the acquire after it fails
  too, the callback receives the acquire's error and the table is unchanged: the lock
  that could not be extended is still the entry for the key. No code removes an entry
  from the table.
\<close>

theorem failed_extend_and_acquire_keep_entry:
  assumes "getLock s (resourceId host) = Some l"
      and "isl (fst (tryExtend io l ttl s))"
      and "isl (fst (tryAcquire io (resourceId host) ttl (snd (tryExtend io l ttl s))))"
  shows "fst (lock io host ttl s) =
           fst (tryAcquire io (resourceId host) ttl (snd (tryExtend io l ttl s)))
       \<and> isl (fst (lock io host ttl s))
       \<and> locks (snd (lock io host ttl s)) = locks s
       \<and> getLock (snd (lock io host ttl s)) (resourceId host) = Some l"
proof -
  let ?rid = "resourceId host"
  obtain e1 s1 where te: "tryExtend io l ttl s = (Inl e1, s1)"
    using assms(2) by (cases "tryExtend io l ttl s"; cases "fst (tryExtend io l ttl s)") auto
  obtain e2 s2 where ta: "tryAcquire io ?rid ttl s1 = (Inl e2, s2)"
    using assms(3) te by (cases "tryAcquire io ?rid ttl s1"; cases "fst (tryAcquire io ?rid ttl s1)") auto
  from tryExtend_locks [of io l ttl s] te have "locks s1 = locks s" by simp
  moreover from tryAcquire_locks [of io ?rid ttl s1] ta have "locks s2 = locks s1" by simp
  ultimately show ?thesis using assms(1) te ta
    by (simp add: lock_def acquireCallback_def emit_def getLock_locks)
qed

theorem failed_reacquire_witness:
  "getLock (node_down held_state) (resourceId ''hostA'') = Some 0
   \<and> isl (fst (tryExtend one_node_store 0 10 (node_down held_state)))
   \<and> isl (fst (tryAcquire one_node_store (resourceId ''hostA'') 10
                 (snd (tryExtend one_node_store 0 10 (node_down held_state)))))
   \<and> isl (fst (lock one_node_store ''hostA'' 10 (node_down held_state)))
   \<and> getLock (snd (lock one_node_store ''hostA'' 10 (node_down held_state))) (resourceId ''hostA'')
       = Some 0"
proof -
  have h1: "getLock (node_down held_state) (resourceId ''hostA'') = Some 0"
    by (simp add: scenario_defs)
  have h2: "isl (fst (tryExtend one_node_store 0 10 (node_down held_state)))"
    by (simp add: scenario_defs)
  have h3: "isl (fst (tryAcquire one_node_store (resourceId ''hostA'') 10
                       (snd (tryExtend one_node_store 0 10 (node_down held_state)))))"
    by (simp add: scenario_defs)
  from failed_extend_and_acquire_keep_entry [OF h1 h2 h3] h1 h2 h3 show ?thesis by simp
qed

text \<open>
  C4 as stated fails: with the node down, extend and acquire both fail, and a lookup of
  the key afterwards still finds the lock.
\<close>

theorem failed_reacquire_keeps_entry_counterexample:
  "getLock (node_down held_state) (resourceId ''hostA'') = Some 0
   \<and> isl (fst (tryExtend one_node_store 0 10 (node_down held_state)))
   \<and> fst (lock one_node_store ''hostA'' 10 (node_down held_state)) = Inl (LockError ''not acquired'')
   \<and> getLock (snd (lock one_node_store ''hostA'' 10 (node_down held_state))) (resourceId ''hostA'')
       \<noteq> None"
  by (simp add: scenario_defs)

section \<open>unlock\<close>

text \<open>
  C2, as the code has it. When the table holds a lock for the key, \<^verbatim>\<open>unlock\<close> asks
  the pool for a connection. If the pool refuses, release is not called and the callback
  receives the pool's error. Otherwise release is called on that lock over that
  connection, the connection goes back, and the callback receives what release
  reported. In both cases the table is unchanged: the entry for the key is still there.
\<close>

theorem unlock_releases_and_keeps_entry:
  assumes "getLock s (resourceId host) = Some l"
  shows "getLock (snd (unlock io host s)) (resourceId host) = Some l
       \<and> locks (snd (unlock io host s)) = locks s
       \<and> (case pool_acquire io REDIS_DISTLOCK_DB (world s) of
            (Inl e, w1) \<Rightarrow>
              fst (unlock io host s) = Some (Some e)
              \<and> issued s (snd (unlock io host s)) =
                  [PoolAcquire REDIS_DISTLOCK_DB (Inl e), Callback (Some e) None]
          | (Inr c, w1) \<Rightarrow>
              fst (unlock io host s) = Some (fst (redlock_unlock io [Conn c] l w1))
              \<and> issued s (snd (unlock io host s)) =
                  [PoolAcquire REDIS_DISTLOCK_DB (Inr c), RedlockUnlock [Conn c] l,
                   PoolRelease REDIS_DISTLOCK_DB c,
                   Callback (fst (redlock_unlock io [Conn c] l w1)) None])"
  using assms unlock_present [OF assms, of io]
  by (simp add: getLock_locks unlock_locks)

theorem unlock_releases_witness:
  "getLock held_state (resourceId ''hostA'') = Some 0
   \<and> getLock (snd (unlock one_node_store ''hostA'' held_state)) (resourceId ''hostA'') = Some 0
   \<and> fst (unlock one_node_store ''hostA'' held_state) = Some None
   \<and> issued held_state (snd (unlock one_node_store ''hostA'' held_state)) =
       [PoolAcquire 5 (Inr 2), RedlockUnlock [Conn 2] 0, PoolRelease 5 2, Callback None None]"
proof -
  have h: "getLock held_state (resourceId ''hostA'') = Some 0"
    by (simp add: scenario_defs)
  from unlock_releases_and_keeps_entry [OF h, of one_node_store] show ?thesis
    by (simp add: scenario_defs)
qed

text \<open>
  C2 as stated fails: after a successful release the table still has the entry; and
  with the pool exhausted, release is not called at all.
\<close>

theorem unlock_keeps_entry_counterexample:
  "getLock held_state (resourceId ''hostA'') = Some 0
   \<and> fst (unlock one_node_store ''hostA'' held_state) = Some None
   \<and> getLock (snd (unlock one_node_store ''hostA'' held_state)) (resourceId ''hostA'') \<noteq> None
   \<and> getLock (pool_exhausted held_state) (resourceId ''hostA'') = Some 0
   \<and> issued (pool_exhausted held_state)
        (snd (unlock one_node_store ''hostA'' (pool_exhausted held_state))) =
       [PoolAcquire 5 (Inl (PoolError ''exhausted'')),
        Callback (Some (PoolError ''exhausted'')) None]"
  by (simp add: scenario_defs issued_def)

text \<open>
  C5, as the code has it. \<^verbatim>\<open>unlock\<close> leaves the table as it was, so a second
  \<^verbatim>\<open>unlock\<close> of the same key finds what the first found. With a lock in the table it
  again asks the pool for a connection, calls release on the same lock and hands its
  callback what release reports. Only with no lock in the table is \<^verbatim>\<open>unlock\<close> a
  no-op: it makes no call and reports no error.
\<close>

theorem second_unlock_repeats_first:
  "getLock (snd (unlock io host s)) (resourceId host) = getLock s (resourceId host)
   \<and> (case getLock s (resourceId host) of
        None \<Rightarrow> unlock io host (snd (unlock io host s)) = (None, s)
      | Some l \<Rightarrow>
          (case pool_acquire io REDIS_DISTLOCK_DB (world (snd (unlock io host s))) of
             (Inl e, w1) \<Rightarrow>
               fst (unlock io host (snd (unlock io host s))) = Some (Some e)
               \<and> issued (snd (unlock io host s)) (snd (unlock io host (snd (unlock io host s)))) =
                   [PoolAcquire REDIS_DISTLOCK_DB (Inl e), Callback (Some e) None]
           | (Inr c, w1) \<Rightarrow>
               fst (unlock io host (snd (unlock io host s))) =
                 Some (fst (redlock_unlock io [Conn c] l w1))
               \<and> issued (snd (unlock io host s)) (snd (unlock io host (snd (unlock io host s)))) =
                   [PoolAcquire REDIS_DISTLOCK_DB (Inr c), RedlockUnlock [Conn c] l,
                    PoolRelease REDIS_DISTLOCK_DB c,
                    Callback (fst (redlock_unlock io [Conn c] l w1)) None]))"
proof -
  let ?s1 = "snd (unlock io host s)"
  have same: "getLock ?s1 (resourceId host) = getLock s (resourceId host)"
    by (simp add: getLock_locks unlock_locks)
  show ?thesis
  proof (cases "getLock s (resourceId host)")
    case None
    then show ?thesis using same by (simp add: unlock_absent)
  next
    case (Some l)
    with same have "getLock ?s1 (resourceId host) = Some l" by simp
    from unlock_present [OF this, of io] Some same show ?thesis by simp
  qed
qed

theorem second_unlock_witness:
  "getLock (snd (unlock one_node_store ''hostA'' held_state)) (resourceId ''hostA'') = Some 0
   \<and> fst (unlock one_node_store ''hostA'' (snd (unlock one_node_store ''hostA'' held_state)))
       = Some None
   \<and> unlock one_node_store ''hostB'' (snd (unlock one_node_store ''hostB'' held_state))
       = (None, held_state)"
proof -
  from second_unlock_repeats_first [of one_node_store "''hostA''" held_state]
       second_unlock_repeats_first [of one_node_store "''hostB''" held_state]
  show ?thesis
    by (simp add: scenario_defs)
qed

text \<open>
  C5 as stated fails: the second \<^verbatim>\<open>unlock\<close> performs a release on the lock already
  released; and when the node has gone down in between, its callback receives the
  error of that release.
\<close>

theorem second_unlock_releases_again_counterexample:
  "fst (unlock one_node_store ''hostA'' held_state) = Some None
   \<and> issued released_state (snd (unlock one_node_store ''hostA'' released_state))
       = [PoolAcquire 5 (Inr 1), RedlockUnlock [Conn 1] 0, PoolRelease 5 1,
          Callback None None]
   \<and> fst (unlock one_node_store ''hostA'' (node_down released_state))
       = Some (Some (LockError ''not released''))"
proof -
  have "fst (unlock one_node_store ''hostA'' held_state) = Some None"
    by (simp add: scenario_defs)
  moreover have "issued released_state (snd (unlock one_node_store ''hostA'' released_state))
       = [PoolAcquire 5 (Inr 1), RedlockUnlock [Conn 1] 0, PoolRelease 5 1,
          Callback None None]"
    by (simp add: released_state_eq model_defs double_defs issued_def)
  moreover have "fst (unlock one_node_store ''hostA'' (node_down released_state))
       = Some (Some (LockError ''not released''))"
    by (simp add: released_state_eq model_defs double_defs)
  ultimately show ?thesis by simp
qed

section \<open>Expired leases\<close>

text \<open>
  C6, as the code has it. The coordinator never compares \<open>expiresAt\<close> with the clock.
  For a lock in the table whose \<open>expiresAt\<close> has passed, the lookup still returns it;
  when the pool grants a connection, \<^verbatim>\<open>lock\<close> runs extend on it and \<^verbatim>\<open>unlock\<close> runs
  release on it; and the key still has an entry afterwards. That the lease has expired
  is left to the library's extend to find.
\<close>

theorem expired_lease_still_operated_on:
  assumes "locks s (resourceId host) = Some l"
      and "expired (world s) l"
      and "fst (pool_acquire io REDIS_DISTLOCK_DB (world s)) = Inr c"
  shows "getLock s (resourceId host) = Some l
       \<and> take 2 (issued s (snd (lock io host ttl s))) =
           [PoolAcquire REDIS_DISTLOCK_DB (Inr c), LockExtend [Conn c] l ttl]
       \<and> take 2 (issued s (snd (unlock io host s))) =
           [PoolAcquire REDIS_DISTLOCK_DB (Inr c), RedlockUnlock [Conn c] l]
       \<and> getLock (snd (lock io host ttl s)) (resourceId host) \<noteq> None
       \<and> getLock (snd (unlock io host s)) (resourceId host) = Some l"
proof -
  let ?rid = "resourceId host"
  have gl: "getLock s ?rid = Some l" using assms(1) by (simp add: getLock_locks)
  obtain w1 where pa: "pool_acquire io REDIS_DISTLOCK_DB (world s) = (Inr c, w1)"
    using assms(3) by (cases "pool_acquire io REDIS_DISTLOCK_DB (world s)") auto
  obtain r w2 where ex: "lock_extend io [Conn c] l ttl w1 = (r, w2)" by force
  note te = tryExtend_pool_granted [OF pa ex]
  have "take 2 (issued s (snd (lock io host ttl s))) =
          [PoolAcquire REDIS_DISTLOCK_DB (Inr c), LockExtend [Conn c] l ttl]"
  proof (cases r)
    case (Inr l')
    with gl te show ?thesis by (simp add: lock_def emit_def issued_def)
  next
    case (Inl e)
    let ?s1 = "snd (tryExtend io l ttl s)"
    from lock_extend_tail obtain es where
      "trace (snd (acquireCallback ?rid (tryAcquire io ?rid ttl ?s1))) = trace ?s1 @ es" by blast
    with gl te Inl show ?thesis by (simp add: lock_def issued_def)
  qed
  moreover from unlock_present [OF gl, of io] pa
  have "take 2 (issued s (snd (unlock io host s))) =
          [PoolAcquire REDIS_DISTLOCK_DB (Inr c), RedlockUnlock [Conn c] l]" by simp
  moreover from lock_keeps_or_sets [of io host ttl s] assms(1)
  have "getLock (snd (lock io host ttl s)) ?rid \<noteq> None"
    by (auto simp: getLock_locks)
  moreover have "getLock (snd (unlock io host s)) ?rid = Some l"
    using assms(1) by (simp add: getLock_locks unlock_locks)
  ultimately show ?thesis using gl by simp
qed

theorem expired_lease_witness:
  "locks (at_time 50 held_state) (resourceId ''hostA'') = Some 0
   \<and> expired (world (at_time 50 held_state)) 0
   \<and> getLock (at_time 50 held_state) (resourceId ''hostA'') = Some 0
   \<and> take 2 (issued (at_time 50 held_state)
               (snd (lock one_node_store ''hostA'' 10 (at_time 50 held_state))))
       = [PoolAcquire 5 (Inr 2), LockExtend [Conn 2] 0 10]
   \<and> take 2 (issued (at_time 50 held_state)
               (snd (unlock one_node_store ''hostA'' (at_time 50 held_state))))
       = [PoolAcquire 5 (Inr 2), RedlockUnlock [Conn 2] 0]
   \<and> getLock (snd (unlock one_node_store ''hostA'' (at_time 50 held_state))) (resourceId ''hostA'')
       = Some 0"
proof -
  have h1: "locks (at_time 50 held_state) (resourceId ''hostA'') = Some 0"
    by (simp add: scenario_defs)
  have h2: "expired (world (at_time 50 held_state)) 0"
    by (simp add: scenario_defs expired_def)
  have h3: "fst (pool_acquire one_node_store REDIS_DISTLOCK_DB (world (at_time 50 held_state)))
              = Inr 2"
    by (simp add: scenario_defs)
  from expired_lease_still_operated_on [OF h1 h2 h3] h1 h2 show ?thesis
    by (simp add: REDIS_DISTLOCK_DB_def)
qed

text \<open>
  C6 as stated fails: at time 50 the lock that expired at 10 is still what the lookup
  returns, \<^verbatim>\<open>lock\<close> runs extend on it before it acquires anew, and \<^verbatim>\<open>unlock\<close>
  runs release on it.
\<close>

theorem expired_lease_counterexample:
  "expired (world (at_time 50 held_state)) 0
   \<and> getLock (at_time 50 held_state) (resourceId ''hostA'') \<noteq> None
   \<and> issued (at_time 50 held_state) (snd (lock one_node_store ''hostA'' 10 (at_time 50 held_state)))
       = [PoolAcquire 5 (Inr 2), LockExtend [Conn 2] 0 10, PoolRelease 5 2,
          PoolAcquire 5 (Inr 1), RedlockLock [Conn 1] ''batch:locks:hostA'' 10, PoolRelease 5 1,
          Callback None (Some 1)]
   \<and> issued (at_time 50 held_state) (snd (unlock one_node_store ''hostA'' (at_time 50 held_state)))
       = [PoolAcquire 5 (Inr 2), RedlockUnlock [Conn 2] 0, PoolRelease 5 2,
          Callback None None]"
  by (simp add: scenario_defs issued_def expired_def)

section \<open>The pool and the server set\<close>

text \<open>
  C7. On every path of \<^verbatim>\<open>lock\<close> and of \<^verbatim>\<open>unlock\<close>, whatever the pool and the
  library answer, every connection obtained from the pool during the call is given back
  exactly once, before the caller's callback is invoked, and the call obtains as many
  connections as it gives back.
\<close>

theorem pool_connections_released_before_callback:
  "pool_discipline [] (issued s (snd (lock io host ttl s)))
   \<and> acquired (issued s (snd (lock io host ttl s))) = released (issued s (snd (lock io host ttl s)))
   \<and> pool_discipline [] (issued s (snd (unlock io host s)))
   \<and> acquired (issued s (snd (unlock io host s))) = released (issued s (snd (unlock io host s)))"
proof -
  from lock_issued_shape [of io host ttl s] obtain es err l' where
    tr: "trace (snd (lock io host ttl s)) = trace s @ es @ [Callback err l']" and
    sh: "segment es \<or> (\<exists>es1 es2. es = es1 @ es2 \<and> segment es1 \<and> segment es2)" by blast
  from tr have iss: "issued s (snd (lock io host ttl s)) = es @ [Callback err l']"
    by (rule issuedI)
  from sh have "pool_discipline [] (es @ [Callback err l'])"
    by (auto simp: segment_discipline)
  moreover from sh have "acquired (es @ [Callback err l']) = released (es @ [Callback err l'])"
    by (auto simp: acquired_append released_append segment_counts)
  moreover from unlock_issued_shape [of s io host]
  have "pool_discipline [] (issued s (snd (unlock io host s)))
        \<and> acquired (issued s (snd (unlock io host s))) = released (issued s (snd (unlock io host s)))"
    by (auto simp: segment_discipline acquired_append released_append segment_counts)
  ultimately show ?thesis using iss by simp
qed

text \<open>
  Instances: a \<^verbatim>\<open>lock\<close> whose extend fails and whose acquire succeeds obtains two
  connections and gives back two; an \<^verbatim>\<open>unlock\<close> the pool refuses holds none.
\<close>

theorem pool_discipline_witness:
  "pool_discipline []
     (issued (at_time 50 held_state) (snd (lock one_node_store ''hostA'' 10 (at_time 50 held_state))))
   \<and> acquired
       (issued (at_time 50 held_state) (snd (lock one_node_store ''hostA'' 10 (at_time 50 held_state))))
       = 2
   \<and> released
       (issued (at_time 50 held_state) (snd (lock one_node_store ''hostA'' 10 (at_time 50 held_state))))
       = 2
   \<and> pool_discipline []
       (issued (pool_exhausted held_state)
          (snd (unlock one_node_store ''hostA'' (pool_exhausted held_state))))"
proof -
  have "acquired
       (issued (at_time 50 held_state) (snd (lock one_node_store ''hostA'' 10 (at_time 50 held_state))))
       = 2"
    by (simp add: scenario_defs issued_def)
  with pool_connections_released_before_callback
         [of "at_time 50 held_state" one_node_store "''hostA''" 10]
       pool_connections_released_before_callback
         [of "pool_exhausted held_state" one_node_store "''hostA''" 10]
  show ?thesis by simp
qed

text \<open>
  C10. Every store operation of \<^verbatim>\<open>lock\<close> and of \<^verbatim>\<open>unlock\<close> (acquire, extend,
  release) runs over a server set that was just overwritten with exactly the one
  connection the pool granted for it. The library therefore decides over one node, and
  the majority of one node is one, however many nodes the world has.
\<close>

theorem every_operation_runs_over_one_connection:
  "own_connection None (issued s (snd (lock io host ttl s)))
   \<and> list_all one_node (node_counts (issued s (snd (lock io host ttl s))))
   \<and> own_connection None (issued s (snd (unlock io host s)))
   \<and> list_all one_node (node_counts (issued s (snd (unlock io host s))))"
proof -
  from lock_issued_shape [of io host ttl s] obtain es err l' where
    tr: "trace (snd (lock io host ttl s)) = trace s @ es @ [Callback err l']" and
    sh: "segment es \<or> (\<exists>es1 es2. es = es1 @ es2 \<and> segment es1 \<and> segment es2)" by blast
  from tr have iss: "issued s (snd (lock io host ttl s)) = es @ [Callback err l']"
    by (rule issuedI)
  have cb: "node_counts [Callback err l'] = []" for err l'
    by simp
  from sh have "own_connection None (es @ [Callback err l'])"
    by (auto simp: segment_own_connection)
  moreover from sh have "list_all one_node (node_counts (es @ [Callback err l']))"
    by (auto simp: node_counts_append cb segment_node_counts)
  moreover from unlock_issued_shape [of s io host]
  have "own_connection None (issued s (snd (unlock io host s)))
        \<and> list_all one_node (node_counts (issued s (snd (unlock io host s))))"
    by (auto simp: segment_own_connection node_counts_append segment_node_counts)
  ultimately show ?thesis using iss by simp
qed

theorem one_connection_witness:
  "own_connection None
     (issued (at_time 50 held_state) (snd (lock one_node_store ''hostA'' 10 (at_time 50 held_state))))
   \<and> node_counts
       (issued (at_time 50 held_state) (snd (lock one_node_store ''hostA'' 10 (at_time 50 held_state))))
       = [1, 1]
   \<and> own_connection None
       (issued held_state (snd (unlock one_node_store ''hostA'' held_state)))
   \<and> node_counts (issued held_state (snd (unlock one_node_store ''hostA'' held_state))) = [1]"
proof -
  have "node_counts
       (issued (at_time 50 held_state) (snd (lock one_node_store ''hostA'' 10 (at_time 50 held_state))))
       = [1, 1]"
    by (simp add: scenario_defs issued_def)
  moreover have "node_counts (issued held_state (snd (unlock one_node_store ''hostA'' held_state)))
       = [1]"
    by (simp add: scenario_defs issued_def)
  moreover note every_operation_runs_over_one_connection
         [of "at_time 50 held_state" one_node_store "''hostA''" 10]
       every_operation_runs_over_one_connection
         [of held_state one_node_store "''hostA''" 10]
  ultimately show ?thesis by simp
qed

end
